theory Spec2Isabelle
  imports Complex_Main "HOL-Library.Word"
begin

section \<open>FPA: finding private alleles, the per-site pipeline of \<open>main\<close>\<close>

text \<open>
  The theory embeds the body of the \<open>while (getline ...)\<close> loop of \<open>main\<close> in
  \<open>FPA.cpp\<close> (lines 136 to 230): the scan of the populations of one site line, the
  examination of every allele over the populations, and the printing of the private
  alleles.

  Conventions of the embedding.
  \<^item> A site line is taken after its tokens have been extracted: a line holds the three
    leading fields and nine tokens for each of the \<open>num_pops\<close> populations. The arrays
    \<open>n1\<close>, \<open>n2\<close>, \<open>pop_cov\<close>, \<open>s_Nc\<close>, ... indexed by \<open>pg = 1 .. num_pops\<close> are
    the list \<open>pops\<close> of the line; population \<open>pg\<close> is \<open>pops ! (pg - 1)\<close>.
  \<^item> A \<open>double\<close> is a \<open>real\<close>: arithmetic is exact and every value is finite. The
    library functions \<open>atof\<close>, \<open>pow\<close> and \<open>log10\<close> are not part of the program; they
    are parameters of the model (record \<open>libm\<close>), so every theorem holds for any
    choice of them.
  \<^item> \<open>pop_cov\<close> and \<open>tot_cov\<close> are 32-bit integers; \<open>+\<close> on \<open>32 word\<close> wraps.
    The counters \<open>ne_pops\<close>, \<open>pg\<close> and \<open>ag\<close> never exceed the number of tokens of a
    line and are natural numbers.
  \<^item> The array \<open>Nc\<close> and the variable \<open>maf_total\<close> are declared outside the loop over
    the lines and are not reset for a new line. They are the record \<open>carry\<close>, which
    \<open>process_site\<close> receives from the previous line and hands to the next.
  \<^item> C++ leaves a division by zero undefined, and \<open>vector::at\<close> throws
    \<open>out_of_range\<close>. Both are values of the type \<open>error\<close>.
\<close>

subsection \<open>Data\<close>

datatype error = DivisionByZero | OutOfRange

record libm =
  atof :: "string \<Rightarrow> real"
  pow :: "real \<Rightarrow> real \<Rightarrow> real"
  log10 :: "real \<Rightarrow> real"

text \<open>The options \<open>-min_Nc\<close> and \<open>-cv\<close> (lines 35, 36, 49 to 52).\<close>

record options =
  min_Nc :: real
  cv :: real

definition default_options :: options where
  "default_options = \<lparr>min_Nc = 20, cv = 5991 / 1000\<rparr>"

text \<open>The nine tokens of one population on a site line, in the order of line 144.\<close>

record population =
  n1 :: string
  n2 :: string
  pop_cov :: "32 word"
  s_Nc :: string
  s_best_p :: string
  s_best_q :: string
  best_error :: string
  s_best_H :: string
  s_pol_llstat :: string

record site_line =
  scaffold :: string
  site :: int
  ref_nuc :: string
  pops :: "population list"

text \<open>The variables that the first loop over the populations (lines 138 to 168) updates.\<close>

record scan_state =
  tot_cov :: "32 word"
  ne_pops :: nat
  sum_Nc :: real
  alleles :: "string list"
  Nc :: "nat \<Rightarrow> real"

text \<open>The vectors and the sum that are cleared for each allele (lines 185 to 188).\<close>

record allele_acc =
  id_pop_a :: "nat list"
  freq_a :: "real list"
  sum_freq_a :: real

text \<open>
  The vectors \<open>private_allele\<close>, \<open>id_pop_pa\<close>, \<open>focal_paf\<close>, \<open>total_paf\<close> and
  \<open>log_prob_pa\<close> always grow together (lines 212 to 219): they are one list of rows.
\<close>

record private_row =
  private_allele :: string
  id_pop_pa :: nat
  focal_paf :: real
  total_paf :: real
  log_prob_pa :: real

record loop_state =
  maf_total :: real
  rows :: "private_row list"

text \<open>One printed line (line 226), a field for each conversion of the format.\<close>

record out_line =
  out_scaffold :: string
  out_site :: int
  out_ref_nuc :: string
  out_tot_cov :: "32 word"
  out_ne_pops :: nat
  out_num_alleles :: nat
  out_private_allele :: string
  out_id_pop :: nat
  out_focal_frequency :: real
  out_total_frequency :: real
  out_log_prob_pa :: real
  out_MAF :: real

record carry =
  Nc_prev :: "nat \<Rightarrow> real"
  maf_prev :: real

subsection \<open>The scan of the populations (lines 138 to 168)\<close>

text \<open>\<open>if (find(alleles.begin(), alleles.end(), a) == alleles.end()) alleles.push_back(a)\<close>\<close>

definition push_new :: "string \<Rightarrow> string list \<Rightarrow> string list" where
  "push_new a as = (if a \<notin> set as then as @ [a] else as)"

text \<open>The body of the loop at line 143, for population \<open>pg\<close> with tokens \<open>p\<close>.\<close>

definition scan_pop :: "libm \<Rightarrow> options \<Rightarrow> nat \<Rightarrow> population \<Rightarrow> scan_state \<Rightarrow> scan_state" where
  "scan_pop L opt pg p st =
    (let st1 = st\<lparr>tot_cov := tot_cov st + pop_cov p\<rparr> in
     if n1 p \<noteq> ''NA'' then
       let st2 = st1\<lparr>Nc := (Nc st1)(pg := atof L (s_Nc p))\<rparr> in
       if Nc st2 pg \<ge> min_Nc opt then
         let st3 = st2\<lparr>ne_pops := ne_pops st2 + 1\<rparr>;
             st4 = st3\<lparr>sum_Nc := sum_Nc st3 + Nc st3 pg\<rparr>;
             st5 = st4\<lparr>alleles := push_new (n1 p) (alleles st4)\<rparr> in
         if n2 p \<noteq> ''NA'' then
           let pol_llstat = atof L (s_pol_llstat p) in
           if pol_llstat > cv opt then st5\<lparr>alleles := push_new (n2 p) (alleles st5)\<rparr>
           else st5
         else st5
       else st2
     else st1)"

fun scan_loop :: "libm \<Rightarrow> options \<Rightarrow> nat \<Rightarrow> population list \<Rightarrow> scan_state \<Rightarrow> scan_state" where
  "scan_loop L opt pg [] st = st"
| "scan_loop L opt pg (p # ps) st = scan_loop L opt (Suc pg) ps (scan_pop L opt pg p st)"

text \<open>Lines 138 to 141 reset the per-site variables; the array \<open>Nc\<close> keeps its contents.\<close>

definition scan_site :: "libm \<Rightarrow> options \<Rightarrow> (nat \<Rightarrow> real) \<Rightarrow> population list \<Rightarrow> scan_state" where
  "scan_site L opt Nc0 ps =
     scan_loop L opt 1 ps \<lparr>tot_cov = 0, ne_pops = 0, sum_Nc = 0, alleles = [], Nc = Nc0\<rparr>"

subsection \<open>The examination of one allele over the populations (lines 185 to 203)\<close>

text \<open>The body of the loop at line 189, for allele \<open>a\<close> and population \<open>pg\<close>.\<close>

definition examine_pop ::
  "libm \<Rightarrow> options \<Rightarrow> (nat \<Rightarrow> real) \<Rightarrow> string \<Rightarrow> nat \<Rightarrow> population \<Rightarrow> allele_acc \<Rightarrow> allele_acc" where
  "examine_pop L opt NcA a pg p acc =
    (if n1 p \<noteq> ''NA'' \<and> NcA pg \<ge> min_Nc opt then
       if n1 p = a then
         acc\<lparr>id_pop_a := id_pop_a acc @ [pg],
             freq_a := freq_a acc @ [atof L (s_best_p p)],
             sum_freq_a := sum_freq_a acc + atof L (s_best_p p)\<rparr>
       else if n2 p = a then
         acc\<lparr>id_pop_a := id_pop_a acc @ [pg],
             freq_a := freq_a acc @ [atof L (s_best_q p)],
             sum_freq_a := sum_freq_a acc + atof L (s_best_q p)\<rparr>
       else acc
     else acc)"

fun examine_loop ::
  "libm \<Rightarrow> options \<Rightarrow> (nat \<Rightarrow> real) \<Rightarrow> string \<Rightarrow> nat \<Rightarrow> population list \<Rightarrow> allele_acc \<Rightarrow> allele_acc" where
  "examine_loop L opt NcA a pg [] acc = acc"
| "examine_loop L opt NcA a pg (p # ps) acc =
     examine_loop L opt NcA a (Suc pg) ps (examine_pop L opt NcA a pg p acc)"

definition examine_allele ::
  "libm \<Rightarrow> options \<Rightarrow> (nat \<Rightarrow> real) \<Rightarrow> population list \<Rightarrow> string \<Rightarrow> allele_acc" where
  "examine_allele L opt NcA ps a =
     examine_loop L opt NcA a 1 ps \<lparr>id_pop_a = [], freq_a = [], sum_freq_a = 0\<rparr>"

text \<open>Line 203, \<open>mean_freq_a = sum_freq_a/ne_pops\<close>, with the zero divisor as an error.\<close>

definition mean_freq_a :: "allele_acc \<Rightarrow> nat \<Rightarrow> error + real" where
  "mean_freq_a acc ne = (if ne = 0 then Inl DivisionByZero else Inr (sum_freq_a acc / real ne))"

subsection \<open>The loop over the alleles (lines 184 to 221)\<close>

text \<open>\<open>v.at(0)\<close>\<close>

definition at0 :: "'a list \<Rightarrow> error + 'a" where
  "at0 v = (case v of [] \<Rightarrow> Inl OutOfRange | x # _ \<Rightarrow> Inr x)"

text \<open>Lines 212 to 219: the row pushed for a private allele.\<close>

definition push_private ::
  "libm \<Rightarrow> scan_state \<Rightarrow> string \<Rightarrow> allele_acc \<Rightarrow> real \<Rightarrow> private_row list \<Rightarrow> error + private_row list" where
  "push_private L st a acc mean rs =
    (case at0 (id_pop_a acc) of
       Inl e \<Rightarrow> Inl e
     | Inr i \<Rightarrow>
        (case at0 (freq_a acc) of
           Inl e \<Rightarrow> Inl e
         | Inr f \<Rightarrow>
            (let Nc_focal = Nc st i;
                 Nc_other = sum_Nc st - Nc_focal;
                 t_prob_pa = (1 - pow L (1 - mean) Nc_focal) * pow L (1 - mean) Nc_other
             in Inr (rs @ [\<lparr>private_allele = a, id_pop_pa = i, focal_paf = f,
                             total_paf = mean, log_prob_pa = log10 L t_prob_pa\<rparr>]))))"

text \<open>The body of the loop at line 184 for allele number \<open>ag\<close>, and the loop.\<close>

fun allele_loop ::
  "libm \<Rightarrow> options \<Rightarrow> scan_state \<Rightarrow> population list \<Rightarrow> nat \<Rightarrow> string list \<Rightarrow> loop_state
     \<Rightarrow> error + loop_state" where
  "allele_loop L opt st ps ag [] ls = Inr ls"
| "allele_loop L opt st ps ag (a # as) ls =
    (let acc = examine_allele L opt (Nc st) ps a;
         num_pops_a = length (id_pop_a acc)
     in case mean_freq_a acc (ne_pops st) of
          Inl e \<Rightarrow> Inl e
        | Inr mean \<Rightarrow>
           (let maf = (if ag = 0 then mean
                       else if mean < maf_total ls then mean else maf_total ls)
            in if ne_pops st \<ge> 2 \<and> num_pops_a = 1 then
                 (case push_private L st a acc mean (rows ls) of
                    Inl e \<Rightarrow> Inl e
                  | Inr rs \<Rightarrow>
                      allele_loop L opt st ps (Suc ag) as \<lparr>maf_total = maf, rows = rs\<rparr>)
               else allele_loop L opt st ps (Suc ag) as \<lparr>maf_total = maf, rows = rows ls\<rparr>))"

subsection \<open>One site line (lines 136 to 230)\<close>

text \<open>Line 226: the line printed for a private allele.\<close>

definition print_row :: "site_line \<Rightarrow> scan_state \<Rightarrow> real \<Rightarrow> private_row \<Rightarrow> out_line" where
  "print_row s st maf r =
     \<lparr>out_scaffold = scaffold s, out_site = site s, out_ref_nuc = ref_nuc s,
      out_tot_cov = tot_cov st, out_ne_pops = ne_pops st,
      out_num_alleles = length (alleles st),
      out_private_allele = private_allele r, out_id_pop = id_pop_pa r,
      out_focal_frequency = focal_paf r, out_total_frequency = total_paf r,
      out_log_prob_pa = log_prob_pa r, out_MAF = maf\<rparr>"

definition process_site ::
  "libm \<Rightarrow> options \<Rightarrow> carry \<Rightarrow> site_line \<Rightarrow> error + (out_line list \<times> carry)" where
  "process_site L opt c s =
    (let st = scan_site L opt (Nc_prev c) (pops s) in
     case allele_loop L opt st (pops s) 0 (alleles st) \<lparr>maf_total = maf_prev c, rows = []\<rparr> of
       Inl e \<Rightarrow> Inl e
     | Inr ls \<Rightarrow>
         Inr (map (print_row s st (maf_total ls)) (rows ls),
              \<lparr>Nc_prev = Nc st, maf_prev = maf_total ls\<rparr>))"

text \<open>The loop over the lines (line 136): the output of all lines, in their order.\<close>

fun read_lines :: "libm \<Rightarrow> options \<Rightarrow> carry \<Rightarrow> site_line list \<Rightarrow> error + out_line list" where
  "read_lines L opt c [] = Inr []"
| "read_lines L opt c (s # ss) =
    (case process_site L opt c s of
       Inl e \<Rightarrow> Inl e
     | Inr (out, c') \<Rightarrow>
        (case read_lines L opt c' ss of
           Inl e \<Rightarrow> Inl e
         | Inr outs \<Rightarrow> Inr (out @ outs)))"

subsection \<open>Closed forms of the loops\<close>

text \<open>
  The definitions of this subsection are not part of the program. They describe what
  the loops compute as functions of the tokens of the line alone; the lemmas of the next
  section prove that the loops above compute exactly that, and the claims are then
  stated about the loops.
\<close>

text \<open>The test of lines 148 and 150, which line 190 repeats on the stored \<open>Nc[pg]\<close>.\<close>

definition qualifies :: "libm \<Rightarrow> options \<Rightarrow> population \<Rightarrow> bool" where
  "qualifies L opt p \<longleftrightarrow> n1 p \<noteq> ''NA'' \<and> atof L (s_Nc p) \<ge> min_Nc opt"

text \<open>The alleles that one population inserts into the list, in the order of insertion.\<close>

definition offered :: "libm \<Rightarrow> options \<Rightarrow> population \<Rightarrow> string list" where
  "offered L opt p =
     (if qualifies L opt p then
        n1 p # (if n2 p \<noteq> ''NA'' \<and> atof L (s_pol_llstat p) > cv opt then [n2 p] else [])
      else [])"

definition push_all :: "string list \<Rightarrow> string list \<Rightarrow> string list" where
  "push_all as xs = foldl (\<lambda>as a. push_new a as) as xs"

text \<open>The frequency that the examination of allele \<open>a\<close> records for one population, if any.\<close>

definition carrier_freq :: "libm \<Rightarrow> options \<Rightarrow> string \<Rightarrow> population \<Rightarrow> real option" where
  "carrier_freq L opt a p =
     (if qualifies L opt p then
        if n1 p = a then Some (atof L (s_best_p p))
        else if n2 p = a then Some (atof L (s_best_q p))
        else None
      else None)"

text \<open>The population ids and frequencies recorded for allele \<open>a\<close>, from population \<open>pg\<close> on.\<close>

fun hits :: "libm \<Rightarrow> options \<Rightarrow> string \<Rightarrow> nat \<Rightarrow> population list \<Rightarrow> (nat \<times> real) list" where
  "hits L opt a pg [] = []"
| "hits L opt a pg (p # ps) =
     (case carrier_freq L opt a p of None \<Rightarrow> [] | Some f \<Rightarrow> [(pg, f)]) @ hits L opt a (Suc pg) ps"

text \<open>The value of \<open>mean_freq_a\<close> and the row of a private allele, as lines 203 and 212 to 219 compute them.\<close>

definition mean_val :: "libm \<Rightarrow> options \<Rightarrow> scan_state \<Rightarrow> population list \<Rightarrow> string \<Rightarrow> real" where
  "mean_val L opt st ps a = sum_freq_a (examine_allele L opt (Nc st) ps a) / real (ne_pops st)"

definition row_for :: "libm \<Rightarrow> options \<Rightarrow> scan_state \<Rightarrow> population list \<Rightarrow> string \<Rightarrow> private_row" where
  "row_for L opt st ps a =
     (let acc = examine_allele L opt (Nc st) ps a;
          m = mean_val L opt st ps a;
          i = hd (id_pop_a acc)
      in \<lparr>private_allele = a, id_pop_pa = i, focal_paf = hd (freq_a acc), total_paf = m,
          log_prob_pa = log10 L ((1 - pow L (1 - m) (Nc st i)) * pow L (1 - m) (sum_Nc st - Nc st i))\<rparr>)"

definition is_private :: "libm \<Rightarrow> options \<Rightarrow> scan_state \<Rightarrow> population list \<Rightarrow> string \<Rightarrow> bool" where
  "is_private L opt st ps a \<longleftrightarrow>
     2 \<le> ne_pops st \<and> length (id_pop_a (examine_allele L opt (Nc st) ps a)) = 1"

text \<open>The updates of \<open>maf_total\<close> (lines 204 to 210) over the means of the alleles.\<close>

fun run_maf :: "nat \<Rightarrow> real list \<Rightarrow> real \<Rightarrow> real" where
  "run_maf ag [] m = m"
| "run_maf ag (x # xs) m = run_maf (Suc ag) xs (if ag = 0 then x else if x < m then x else m)"

definition site_maf :: "libm \<Rightarrow> options \<Rightarrow> scan_state \<Rightarrow> population list \<Rightarrow> real \<Rightarrow> real" where
  "site_maf L opt st ps m0 =
     (if alleles st = [] then m0 else Min (mean_val L opt st ps ` set (alleles st)))"

subsection \<open>Sample inputs\<close>

text \<open>
  A table stands for \<open>atof\<close> on the strings of the sample lines (any other string
  converts to 0, as a string that is not a number does), and \<open>powr\<close> and \<open>log 10\<close>
  stand for \<open>pow\<close> and \<open>log10\<close>.
\<close>

definition table_atof :: "(string \<times> real) list \<Rightarrow> string \<Rightarrow> real" where
  "table_atof tbl s = (case map_of tbl s of Some x \<Rightarrow> x | None \<Rightarrow> 0)"

definition sample_libm :: libm where
  "sample_libm =
     \<lparr>atof = table_atof
        [(''25'', 25), (''22'', 22), (''15'', 15), (''0.9'', 9 / 10), (''0.8'', 8 / 10),
         (''0.1'', 1 / 10), (''0.2'', 2 / 10), (''1.0'', 1), (''5.991'', 5991 / 1000),
         (''7.5'', 75 / 10)],
      pow = (powr), log10 = log 10\<rparr>"

definition sample_pop :: "string \<Rightarrow> string \<Rightarrow> string \<Rightarrow> string \<Rightarrow> string \<Rightarrow> string \<Rightarrow> population" where
  "sample_pop a1 a2 nc p q ll =
     \<lparr>n1 = a1, n2 = a2, pop_cov = 10, s_Nc = nc, s_best_p = p, s_best_q = q,
      best_error = ''0.01'', s_best_H = ''0.1'', s_pol_llstat = ll\<rparr>"

definition empty_scan :: scan_state where
  "empty_scan = \<lparr>tot_cov = 0, ne_pops = 0, sum_Nc = 0, alleles = [], Nc = (\<lambda>_. 0)\<rparr>"

text \<open>The equations that evaluate the sample inputs.\<close>

lemmas sample_defs = table_atof_def sample_libm_def sample_pop_def empty_scan_def default_options_def

text \<open>A site line with given populations, and the state before the first line.\<close>

definition sample_site :: "population list \<Rightarrow> site_line" where
  "sample_site ps = \<lparr>scaffold = ''scaffold_1'', site = 100, ref_nuc = ''A'', pops = ps\<rparr>"

definition sample_carry :: carry where
  "sample_carry = \<lparr>Nc_prev = (\<lambda>_. 0), maf_prev = 0\<rparr>"

text \<open>The equations that evaluate a site line.\<close>

lemmas run_defs = process_site_def scan_site_def scan_pop_def push_new_def examine_allele_def
  examine_pop_def mean_freq_a_def push_private_def at0_def print_row_def Let_def

section \<open>Properties of the loops\<close>

subsection \<open>The scan of the populations\<close>

lemma scan_pop_tot_cov: "tot_cov (scan_pop L opt pg p st) = tot_cov st + pop_cov p"
  by (simp add: scan_pop_def Let_def)

lemma scan_pop_ne_pops:
  "ne_pops (scan_pop L opt pg p st) = ne_pops st + (if qualifies L opt p then 1 else 0)"
  by (simp add: scan_pop_def Let_def qualifies_def)

lemma scan_pop_sum_Nc:
  "sum_Nc (scan_pop L opt pg p st) = sum_Nc st + (if qualifies L opt p then atof L (s_Nc p) else 0)"
  by (simp add: scan_pop_def Let_def qualifies_def)

lemma scan_pop_alleles:
  "alleles (scan_pop L opt pg p st) = push_all (alleles st) (offered L opt p)"
  by (simp add: scan_pop_def Let_def qualifies_def offered_def push_all_def)

lemma scan_pop_Nc:
  "Nc (scan_pop L opt pg p st) = (if n1 p \<noteq> ''NA'' then (Nc st)(pg := atof L (s_Nc p)) else Nc st)"
  by (simp add: scan_pop_def Let_def)

lemma scan_loop_tot_cov:
  "tot_cov (scan_loop L opt pg ps st) = tot_cov st + sum_list (map pop_cov ps)"
  by (induction ps arbitrary: pg st) (simp_all add: scan_pop_tot_cov add.assoc)

lemma scan_loop_ne_pops:
  "ne_pops (scan_loop L opt pg ps st) = ne_pops st + length (filter (qualifies L opt) ps)"
  by (induction ps arbitrary: pg st) (simp_all add: scan_pop_ne_pops)

lemma scan_loop_sum_Nc:
  "sum_Nc (scan_loop L opt pg ps st) =
     sum_Nc st + sum_list (map (\<lambda>p. atof L (s_Nc p)) (filter (qualifies L opt) ps))"
  by (induction ps arbitrary: pg st) (simp_all add: scan_pop_sum_Nc)

lemma scan_loop_alleles:
  "alleles (scan_loop L opt pg ps st) = push_all (alleles st) (concat (map (offered L opt) ps))"
  by (induction ps arbitrary: pg st) (simp_all add: scan_pop_alleles push_all_def)

lemma scan_loop_Nc_below: "k < pg \<Longrightarrow> Nc (scan_loop L opt pg ps st) k = Nc st k"
  by (induction ps arbitrary: pg st) (simp_all add: scan_pop_Nc)

lemma scan_loop_Nc:
  "i < length ps \<Longrightarrow> n1 (ps ! i) \<noteq> ''NA'' \<Longrightarrow>
     Nc (scan_loop L opt pg ps st) (pg + i) = atof L (s_Nc (ps ! i))"
proof (induction ps arbitrary: pg st i)
  case Nil
  then show ?case by simp
next
  case (Cons p ps)
  show ?case
  proof (cases i)
    case 0
    with Cons.prems show ?thesis
      by (simp add: scan_loop_Nc_below scan_pop_Nc)
  next
    case (Suc j)
    with Cons.prems have "Nc (scan_loop L opt (Suc pg) ps (scan_pop L opt pg p st)) (Suc pg + j)
        = atof L (s_Nc (ps ! j))"
      by (intro Cons.IH) simp_all
    with Suc show ?thesis by simp
  qed
qed

lemma set_push_all: "set (push_all as xs) = set as \<union> set xs"
  by (induction xs arbitrary: as) (auto simp: push_all_def push_new_def)

lemma distinct_push_all: "distinct as \<Longrightarrow> distinct (push_all as xs)"
  by (induction xs arbitrary: as) (auto simp: push_all_def push_new_def)

subsection \<open>The examination of an allele\<close>

lemma examine_pop_carrier:
  assumes "n1 p \<noteq> ''NA'' \<longrightarrow> NcA pg = atof L (s_Nc p)"
  shows "examine_pop L opt NcA a pg p acc =
     (case carrier_freq L opt a p of
        None \<Rightarrow> acc
      | Some f \<Rightarrow> acc\<lparr>id_pop_a := id_pop_a acc @ [pg], freq_a := freq_a acc @ [f],
                       sum_freq_a := sum_freq_a acc + f\<rparr>)"
  using assms by (auto simp: examine_pop_def carrier_freq_def qualifies_def)

lemma examine_loop_hits:
  assumes "\<And>i. i < length ps \<Longrightarrow> n1 (ps ! i) \<noteq> ''NA'' \<Longrightarrow> NcA (pg + i) = atof L (s_Nc (ps ! i))"
  shows "examine_loop L opt NcA a pg ps acc =
     \<lparr>id_pop_a = id_pop_a acc @ map fst (hits L opt a pg ps),
      freq_a = freq_a acc @ map snd (hits L opt a pg ps),
      sum_freq_a = sum_freq_a acc + sum_list (map snd (hits L opt a pg ps))\<rparr>"
  using assms
proof (induction ps arbitrary: pg acc)
  case Nil
  then show ?case by simp
next
  case (Cons p ps)
  have hd: "n1 p \<noteq> ''NA'' \<longrightarrow> NcA pg = atof L (s_Nc p)"
    using Cons.prems [of 0] by simp
  have tl: "\<And>i. i < length ps \<Longrightarrow> n1 (ps ! i) \<noteq> ''NA'' \<Longrightarrow> NcA (Suc pg + i) = atof L (s_Nc (ps ! i))"
    using Cons.prems [of "Suc _"] by simp
  show ?case
    by (simp add: Cons.IH [OF tl] examine_pop_carrier [where NcA = NcA and pg = pg, OF hd] split: option.split)
qed

lemma scan_site_Nc:
  assumes "i < length ps" and "n1 (ps ! i) \<noteq> ''NA''"
  shows "Nc (scan_site L opt Nc0 ps) (Suc i) = atof L (s_Nc (ps ! i))"
  using scan_loop_Nc [OF assms, of L opt 1] by (simp add: scan_site_def)

lemma examine_allele_scan_site:
  "examine_allele L opt (Nc (scan_site L opt Nc0 ps)) ps a =
     \<lparr>id_pop_a = map fst (hits L opt a 1 ps),
      freq_a = map snd (hits L opt a 1 ps),
      sum_freq_a = sum_list (map snd (hits L opt a 1 ps))\<rparr>"
  unfolding examine_allele_def
  by (subst examine_loop_hits) (simp_all add: scan_site_Nc)

lemma hits_fst_ge: "(k, f) \<in> set (hits L opt a pg ps) \<Longrightarrow> pg \<le> k"
  by (induction ps arbitrary: pg) (fastforce split: option.splits)+

lemma hits_mem:
  "(k, f) \<in> set (hits L opt a pg ps) \<longleftrightarrow>
     pg \<le> k \<and> k < pg + length ps \<and> carrier_freq L opt a (ps ! (k - pg)) = Some f"
proof (induction ps arbitrary: pg)
  case Nil
  then show ?case by simp
next
  case (Cons p ps)
  show ?case
  proof (cases "k = pg")
    case True
    then show ?thesis by (auto dest: hits_fst_ge split: option.splits)
  next
    case False
    then have step: "(k, f) \<in> set (hits L opt a pg (p # ps)) \<longleftrightarrow>
        (k, f) \<in> set (hits L opt a (Suc pg) ps)"
      by (auto split: option.splits)
    show ?thesis
    proof (cases "pg < k")
      case True
      then have "(p # ps) ! (k - pg) = ps ! (k - Suc pg)"
        by (simp add: nth_Cons' )
      with True show ?thesis
        unfolding step Cons.IH by auto
    next
      case False
      with \<open>k \<noteq> pg\<close> show ?thesis
        unfolding step Cons.IH by auto
    qed
  qed
qed

lemma hits_filter:
  "i < length ps \<Longrightarrow>
     filter (\<lambda>(k, f). k = pg + i) (hits L opt a pg ps) =
       (case carrier_freq L opt a (ps ! i) of None \<Rightarrow> [] | Some f \<Rightarrow> [(pg + i, f)])"
proof (induction ps arbitrary: pg i)
  case Nil
  then show ?case by simp
next
  case (Cons p ps)
  have none_below: "filter (\<lambda>(k, f). k = pg) (hits L opt a (Suc pg) ps) = []"
    by (auto simp: filter_empty_conv hits_mem)
  show ?case
  proof (cases i)
    case 0
    then show ?thesis by (simp add: none_below split: option.split)
  next
    case (Suc j)
    with Cons.prems have "j < length ps" by simp
    from Cons.IH [OF this, of "Suc pg"] Suc show ?thesis
      by (simp split: option.split)
  qed
qed

lemma hits_append:
  "hits L opt a pg (ps @ qs) = hits L opt a pg ps @ hits L opt a (pg + length ps) qs"
  by (induction ps arbitrary: pg) simp_all

lemma hits_snd_shift: "map snd (hits L opt a pg ps) = map snd (hits L opt a pg' ps)"
  by (induction ps arbitrary: pg pg') (auto split: option.split)

lemma length_hits:
  "length (hits L opt a pg ps) =
     length (filter (\<lambda>p. qualifies L opt p \<and> (n1 p = a \<or> n2 p = a)) ps)"
  by (induction ps arbitrary: pg) (auto simp: carrier_freq_def split: option.split)

subsection \<open>The loop over the alleles\<close>

lemma run_maf_Suc: "run_maf (Suc n) xs m = fold min xs m"
  by (induction xs arbitrary: n m) (simp_all add: min_def)

lemma run_maf_0: "xs \<noteq> [] \<Longrightarrow> run_maf 0 xs m = Min (set xs)"
  by (cases xs) (simp_all add: run_maf_Suc Min.set_eq_fold [symmetric])

lemma push_private_Inr:
  assumes "id_pop_a acc \<noteq> []" and "freq_a acc \<noteq> []"
  shows "push_private L st a acc mean rs =
     Inr (rs @ [\<lparr>private_allele = a, id_pop_pa = hd (id_pop_a acc), focal_paf = hd (freq_a acc),
                  total_paf = mean,
                  log_prob_pa = log10 L ((1 - pow L (1 - mean) (Nc st (hd (id_pop_a acc))))
                                   * pow L (1 - mean) (sum_Nc st - Nc st (hd (id_pop_a acc))))\<rparr>])"
  using assms by (cases "id_pop_a acc"; cases "freq_a acc") (simp_all add: push_private_def at0_def Let_def)

lemma allele_loop_Cons:
  "allele_loop L opt st ps ag (a # as) ls =
    (case mean_freq_a (examine_allele L opt (Nc st) ps a) (ne_pops st) of
       Inl e \<Rightarrow> Inl e
     | Inr mean \<Rightarrow>
        (if is_private L opt st ps a then
           (case push_private L st a (examine_allele L opt (Nc st) ps a) mean (rows ls) of
              Inl e \<Rightarrow> Inl e
            | Inr rs \<Rightarrow>
                allele_loop L opt st ps (Suc ag) as
                  \<lparr>maf_total = (if ag = 0 then mean
                                 else if mean < maf_total ls then mean else maf_total ls),
                   rows = rs\<rparr>)
         else allele_loop L opt st ps (Suc ag) as
                  \<lparr>maf_total = (if ag = 0 then mean
                                 else if mean < maf_total ls then mean else maf_total ls),
                   rows = rows ls\<rparr>))"
  by (simp add: is_private_def Let_def split: sum.split)

lemma allele_loop_closed:
  assumes ne: "0 < ne_pops st"
    and len: "\<And>a. length (freq_a (examine_allele L opt (Nc st) ps a)) =
                   length (id_pop_a (examine_allele L opt (Nc st) ps a))"
  shows "allele_loop L opt st ps ag as ls =
     Inr \<lparr>maf_total = run_maf ag (map (mean_val L opt st ps) as) (maf_total ls),
          rows = rows ls @ map (row_for L opt st ps) (filter (is_private L opt st ps) as)\<rparr>"
proof (induction as arbitrary: ag ls)
  case Nil
  then show ?case by simp
next
  case (Cons a as)
  let ?acc = "examine_allele L opt (Nc st) ps a"
  have mean: "mean_freq_a ?acc (ne_pops st) = Inr (mean_val L opt st ps a)"
    using ne by (simp add: mean_freq_a_def mean_val_def)
  show ?case
  proof (cases "is_private L opt st ps a")
    case True
    then have one: "length (id_pop_a ?acc) = 1" and two: "2 \<le> ne_pops st"
      by (simp_all add: is_private_def)
    from one len [of a] have "id_pop_a ?acc \<noteq> []" and "freq_a ?acc \<noteq> []"
      by auto
    from push_private_Inr [OF this] True show ?thesis
      by (simp only: allele_loop_Cons mean) (simp add: Cons.IH row_for_def Let_def mean_val_def)
  next
    case False
    then show ?thesis
      by (simp only: allele_loop_Cons mean) (simp add: Cons.IH)
  qed
qed

subsection \<open>A site line\<close>

lemma offered_nonempty: "offered L opt p \<noteq> [] \<longleftrightarrow> qualifies L opt p"
  by (simp add: offered_def)

lemma alleles_scan_site:
  "alleles (scan_site L opt Nc0 ps) = push_all [] (concat (map (offered L opt) ps))"
  by (simp add: scan_site_def scan_loop_alleles)

lemma ne_pops_scan_site:
  "ne_pops (scan_site L opt Nc0 ps) = length (filter (qualifies L opt) ps)"
  by (simp add: scan_site_def scan_loop_ne_pops)

lemma sum_Nc_scan_site:
  "sum_Nc (scan_site L opt Nc0 ps) = sum_list (map (\<lambda>p. atof L (s_Nc p)) (filter (qualifies L opt) ps))"
  by (simp add: scan_site_def scan_loop_sum_Nc)

lemma tot_cov_scan_site:
  "tot_cov (scan_site L opt Nc0 ps) = sum_list (map pop_cov ps)"
  by (simp add: scan_site_def scan_loop_tot_cov)

lemma distinct_alleles_scan_site: "distinct (alleles (scan_site L opt Nc0 ps))"
  by (simp add: alleles_scan_site distinct_push_all)

lemma alleles_imp_ne_pops:
  assumes "a \<in> set (alleles (scan_site L opt Nc0 ps))"
  shows "0 < ne_pops (scan_site L opt Nc0 ps)"
proof -
  from assms obtain p where "p \<in> set ps" and "a \<in> set (offered L opt p)"
    by (auto simp: alleles_scan_site set_push_all)
  then have "p \<in> set ps" and "qualifies L opt p"
    using offered_nonempty [of L opt p] by auto
  then have "filter (qualifies L opt) ps \<noteq> []"
    by (auto simp: filter_empty_conv)
  then show ?thesis by (simp add: ne_pops_scan_site)
qed

lemma process_site_closed:
  fixes L opt c s
  defines "st \<equiv> scan_site L opt (Nc_prev c) (pops s)"
  shows "process_site L opt c s =
     Inr (map (print_row s st (site_maf L opt st (pops s) (maf_prev c)))
            (map (row_for L opt st (pops s)) (filter (is_private L opt st (pops s)) (alleles st))),
          \<lparr>Nc_prev = Nc st, maf_prev = site_maf L opt st (pops s) (maf_prev c)\<rparr>)"
proof (cases "alleles st = []")
  case True
  then show ?thesis
    by (simp add: process_site_def st_def [symmetric] site_maf_def)
next
  case False
  then obtain a where "a \<in> set (alleles st)"
    by (cases "alleles st") auto
  then have ne: "0 < ne_pops st"
    unfolding st_def by (rule alleles_imp_ne_pops)
  have len: "\<And>a. length (freq_a (examine_allele L opt (Nc st) (pops s) a)) =
                   length (id_pop_a (examine_allele L opt (Nc st) (pops s) a))"
    by (simp add: st_def examine_allele_scan_site)
  from False show ?thesis
    by (simp add: process_site_def st_def [symmetric] allele_loop_closed [OF ne len]
        site_maf_def run_maf_0)
qed

lemma process_site_Inr: "\<exists>r. process_site L opt c s = Inr r"
  by (simp add: process_site_closed)

lemma scan_pop_alleles_changed:
  "alleles (scan_pop L opt pg p st) \<noteq> alleles st \<Longrightarrow> ne_pops (scan_pop L opt pg p st) = ne_pops st + 1"
  by (auto simp: scan_pop_def Let_def split: if_splits)

lemma qualifies_eq:
  "qualifies L opt = (\<lambda>p. n1 p \<noteq> ''NA'' \<and> min_Nc opt \<le> atof L (s_Nc p))"
  by (rule ext) (simp add: qualifies_def)

lemma num_pops_a_scan_site:
  "length (id_pop_a (examine_allele L opt (Nc (scan_site L opt Nc0 ps)) ps a)) =
     length (filter (\<lambda>p. n1 p \<noteq> ''NA'' \<and> min_Nc opt \<le> atof L (s_Nc p) \<and> (n1 p = a \<or> n2 p = a)) ps)"
  by (simp add: examine_allele_scan_site length_hits qualifies_def conj_assoc)

lemma is_private_eq:
  "is_private L opt st ps =
     (\<lambda>a. 2 \<le> ne_pops st \<and> length (id_pop_a (examine_allele L opt (Nc st) ps a)) = 1)"
  by (rule ext) (simp add: is_private_def)

lemma private_allele_print_row_for:
  "out_private_allele (print_row s st maf (row_for L opt st' ps a)) = a"
  by (simp add: print_row_def row_for_def Let_def)


lemma mean_freq_a_scan_site:
  assumes "a \<in> set (alleles (scan_site L opt Nc0 ps))"
  shows "mean_freq_a (examine_allele L opt (Nc (scan_site L opt Nc0 ps)) ps a)
           (ne_pops (scan_site L opt Nc0 ps)) =
         Inr (mean_val L opt (scan_site L opt Nc0 ps) ps a)"
  using alleles_imp_ne_pops [OF assms] by (simp add: mean_freq_a_def mean_val_def)

lemma out_MAF_print_row: "out_MAF (print_row s st maf r) = maf"
  by (simp add: print_row_def)

lemma zip_examine_allele_scan_site:
  "zip (id_pop_a (examine_allele L opt (Nc (scan_site L opt Nc0 ps)) ps a))
       (freq_a (examine_allele L opt (Nc (scan_site L opt Nc0 ps)) ps a)) = hits L opt a 1 ps"
  by (simp add: examine_allele_scan_site zip_map_fst_snd)

lemma carrier_freq_qualifies: "carrier_freq L opt a p = Some f \<Longrightarrow> qualifies L opt p"
  by (simp add: carrier_freq_def split: if_splits)

lemma sole_carrier:
  fixes L opt Nc0 ps a
  defines "st \<equiv> scan_site L opt Nc0 ps"
  assumes "length (id_pop_a (examine_allele L opt (Nc st) ps a)) = 1"
  shows "\<exists>k. id_pop_a (examine_allele L opt (Nc st) ps a) = [k] \<and> 1 \<le> k \<and> k \<le> length ps
          \<and> Nc st k = atof L (s_Nc (ps ! (k - 1)))"
proof -
  from assms(2) have "length (hits L opt a 1 ps) = 1"
    by (simp add: st_def examine_allele_scan_site)
  then obtain k f where h: "hits L opt a 1 ps = [(k, f)]"
    by (cases "hits L opt a 1 ps") auto
  then have "(k, f) \<in> set (hits L opt a 1 ps)" by simp
  then have k: "1 \<le> k" "k < 1 + length ps" and cf: "carrier_freq L opt a (ps ! (k - 1)) = Some f"
    by (simp_all add: hits_mem)
  from carrier_freq_qualifies [OF cf] have "n1 (ps ! (k - 1)) \<noteq> ''NA''"
    by (simp add: qualifies_def)
  with k scan_site_Nc [of "k - 1" ps L opt Nc0] have "Nc st k = atof L (s_Nc (ps ! (k - 1)))"
    by (simp add: st_def)
  with h k show ?thesis
    by (simp add: st_def examine_allele_scan_site)
qed

lemma count_list_map_fst:
  "count_list (map fst h) k = length (filter (\<lambda>(k', f). k' = k) h)"
  by (induction h) auto

lemma recorded_entry:
  assumes "i < length ps"
  shows "filter (\<lambda>(k, f). k = Suc i)
           (zip (id_pop_a (examine_allele L opt (Nc (scan_site L opt Nc0 ps)) ps a))
                (freq_a (examine_allele L opt (Nc (scan_site L opt Nc0 ps)) ps a))) =
         (case carrier_freq L opt a (ps ! i) of None \<Rightarrow> [] | Some f \<Rightarrow> [(Suc i, f)])"
  using hits_filter [OF assms, of 1 L opt a]
  by (simp add: zip_examine_allele_scan_site split: option.split)

lemma count_recorded:
  assumes "i < length ps"
  shows "count_list (id_pop_a (examine_allele L opt (Nc (scan_site L opt Nc0 ps)) ps a)) (Suc i) =
         (case carrier_freq L opt a (ps ! i) of None \<Rightarrow> 0 | Some f \<Rightarrow> 1)"
  using hits_filter [OF assms, of 1 L opt a]
  by (simp add: examine_allele_scan_site count_list_map_fst split: option.split)

lemma n1_segregating:
  assumes "i < length ps" and "qualifies L opt (ps ! i)"
  shows "n1 (ps ! i) \<in> set (alleles (scan_site L opt Nc0 ps))"
proof -
  from assms(1) have "ps ! i \<in> set ps" by simp
  moreover from assms(2) have "n1 (ps ! i) \<in> set (offered L opt (ps ! i))"
    by (simp add: offered_def)
  ultimately show ?thesis
    by (auto simp: alleles_scan_site set_push_all)
qed

lemma not_qualifies_iff:
  "\<not> qualifies L opt p \<longleftrightarrow> n1 p = ''NA'' \<or> atof L (s_Nc p) < min_Nc opt"
  by (auto simp: qualifies_def)

lemma carrier_freq_not_qualifies: "\<not> qualifies L opt p \<Longrightarrow> carrier_freq L opt a p = None"
  by (simp add: carrier_freq_def)

lemma offered_not_qualifies: "\<not> qualifies L opt p \<Longrightarrow> offered L opt p = []"
  by (simp add: offered_def)

lemma hits_skip:
  assumes "\<not> qualifies L opt p"
  shows "hits L opt a pg (ps @ p # qs) = hits L opt a pg ps @ hits L opt a (Suc (pg + length ps)) qs"
  using assms by (simp add: hits_append carrier_freq_not_qualifies)

lemma hits_skip_snd:
  assumes "\<not> qualifies L opt p"
  shows "map snd (hits L opt a pg (ps @ p # qs)) = map snd (hits L opt a pg (ps @ qs))"
proof -
  have "map snd (hits L opt a pg (ps @ p # qs)) =
      map snd (hits L opt a pg ps) @ map snd (hits L opt a (Suc (pg + length ps)) qs)"
    by (simp only: hits_skip [OF assms] map_append)
  also have "\<dots> = map snd (hits L opt a pg ps) @ map snd (hits L opt a (pg + length ps) qs)"
    using hits_snd_shift [of L opt a "Suc (pg + length ps)" qs "pg + length ps"] by simp
  also have "\<dots> = map snd (hits L opt a pg (ps @ qs))"
    by (simp add: hits_append)
  finally show ?thesis .
qed

lemma hits_skip_fst:
  assumes "\<not> qualifies L opt p"
  shows "pg + length ps \<notin> fst ` set (hits L opt a pg (ps @ p # qs))"
proof
  assume "pg + length ps \<in> fst ` set (hits L opt a pg (ps @ p # qs))"
  then obtain f where "(pg + length ps, f) \<in> set (hits L opt a pg (ps @ p # qs))"
    by auto
  then have "carrier_freq L opt a p = Some f"
    by (simp add: hits_mem)
  with carrier_freq_not_qualifies [OF assms] show False by simp
qed

subsection \<open>The loop over the lines\<close>

lemma read_lines_Inr: "\<exists>outs. read_lines L opt c ss = Inr outs"
proof (induction ss arbitrary: c)
  case Nil
  then show ?case by simp
next
  case (Cons s ss)
  obtain out c' where "process_site L opt c s = Inr (out, c')"
    using process_site_Inr [of L opt c s] by (metis surj_pair)
  moreover obtain outs where "read_lines L opt c' ss = Inr outs"
    using Cons.IH by blast
  ultimately show ?case by simp
qed

section \<open>The claims\<close>

text \<open>
  Claim C1. For every site line, the printed private alleles are exactly the segregating
  alleles with \<open>num_pops_a = 1\<close> at a site with \<open>ne_pops \<ge> 2\<close>, one line for each, in
  the order of the list of alleles: a segregating allele has an output line if and only
  if \<open>num_pops_a = 1\<close> and \<open>ne_pops \<ge> 2\<close>. A site with \<open>ne_pops = 1\<close> prints
  nothing. Here \<open>ne_pops\<close> is the number of qualifying populations of the line (those
  with \<open>allele1\<close> not \<open>"NA"\<close> and \<open>Nc \<ge> min_Nc\<close>), and \<open>num_pops_a\<close> is the number of
  qualifying populations whose \<open>allele1\<close> or \<open>allele2\<close> is the allele.
\<close>

theorem private_allele_condition:
  fixes L opt c s
  defines "st \<equiv> scan_site L opt (Nc_prev c) (pops s)"
  defines "num_pops_a \<equiv> \<lambda>a. length (id_pop_a (examine_allele L opt (Nc st) (pops s) a))"
  shows "\<exists>out c'. process_site L opt c s = Inr (out, c')
     \<and> map out_private_allele out =
          filter (\<lambda>a. 2 \<le> ne_pops st \<and> num_pops_a a = 1) (alleles st)
     \<and> (\<forall>a \<in> set (alleles st).
          (\<exists>l \<in> set out. out_private_allele l = a) \<longleftrightarrow> (num_pops_a a = 1 \<and> 2 \<le> ne_pops st))
     \<and> (ne_pops st = 1 \<longrightarrow> out = [])
     \<and> distinct (alleles st)
     \<and> (\<forall>a. num_pops_a a =
          length (filter (\<lambda>p. n1 p \<noteq> ''NA'' \<and> min_Nc opt \<le> atof L (s_Nc p)
                              \<and> (n1 p = a \<or> n2 p = a)) (pops s)))
     \<and> ne_pops st =
          length (filter (\<lambda>p. n1 p \<noteq> ''NA'' \<and> min_Nc opt \<le> atof L (s_Nc p)) (pops s))
     \<and> map out_private_allele out =
          filter (\<lambda>a. 2 \<le> length (filter (\<lambda>p. n1 p \<noteq> ''NA'' \<and> min_Nc opt \<le> atof L (s_Nc p))
                                  (pops s))
                    \<and> length (filter (\<lambda>p. n1 p \<noteq> ''NA'' \<and> min_Nc opt \<le> atof L (s_Nc p)
                                         \<and> (n1 p = a \<or> n2 p = a)) (pops s)) = 1)
                 (alleles st)
     \<and> (\<forall>l \<in> set out. out_ne_pops l = ne_pops st)"
proof -
  define out where "out = map (print_row s st (site_maf L opt st (pops s) (maf_prev c)))
      (map (row_for L opt st (pops s)) (filter (is_private L opt st (pops s)) (alleles st)))"
  have run: "process_site L opt c s =
      Inr (out, \<lparr>Nc_prev = Nc st, maf_prev = site_maf L opt st (pops s) (maf_prev c)\<rparr>)"
    unfolding out_def st_def by (rule process_site_closed)
  have names: "map out_private_allele out =
      filter (\<lambda>a. 2 \<le> ne_pops st \<and> num_pops_a a = 1) (alleles st)"
    by (simp add: out_def comp_def private_allele_print_row_for is_private_eq num_pops_a_def)
  have "out_private_allele ` set out =
      {a \<in> set (alleles st). 2 \<le> ne_pops st \<and> num_pops_a a = 1}"
    using arg_cong [OF names, of set] by simp
  then have iff: "\<forall>a \<in> set (alleles st).
      (\<exists>l \<in> set out. out_private_allele l = a) \<longleftrightarrow> (num_pops_a a = 1 \<and> 2 \<le> ne_pops st)"
    by (auto simp: image_iff set_eq_iff) metis+
  have single: "ne_pops st = 1 \<longrightarrow> out = []"
    using names by (auto simp: filter_empty_conv simp flip: map_is_Nil_conv [of out_private_allele out])
  have dist: "distinct (alleles st)"
    unfolding st_def by (rule distinct_alleles_scan_site)
  have count: "\<forall>a. num_pops_a a =
      length (filter (\<lambda>p. n1 p \<noteq> ''NA'' \<and> min_Nc opt \<le> atof L (s_Nc p)
                              \<and> (n1 p = a \<or> n2 p = a)) (pops s))"
    unfolding num_pops_a_def st_def by (simp add: num_pops_a_scan_site)
  have ne: "ne_pops st =
      length (filter (\<lambda>p. n1 p \<noteq> ''NA'' \<and> min_Nc opt \<le> atof L (s_Nc p)) (pops s))"
    by (simp add: st_def ne_pops_scan_site qualifies_eq)
  have tokens: "map out_private_allele out =
      filter (\<lambda>a. 2 \<le> length (filter (\<lambda>p. n1 p \<noteq> ''NA'' \<and> min_Nc opt \<le> atof L (s_Nc p))
                              (pops s))
                \<and> length (filter (\<lambda>p. n1 p \<noteq> ''NA'' \<and> min_Nc opt \<le> atof L (s_Nc p)
                                     \<and> (n1 p = a \<or> n2 p = a)) (pops s)) = 1)
             (alleles st)"
    using names count ne by simp
  have printed: "\<forall>l \<in> set out. out_ne_pops l = ne_pops st"
    by (auto simp: out_def print_row_def)
  from run names iff single dist count ne tokens printed show ?thesis
    by blast
qed

theorem private_allele_condition_witness:
  "ne_pops (scan_site sample_libm default_options (Nc_prev sample_carry)
      (pops (sample_site [sample_pop ''A'' ''NA'' ''25'' ''0.9'' ''NA'' ''NA'',
                          sample_pop ''T'' ''NA'' ''15'' ''0.8'' ''NA'' ''NA'']))) = 1
   \<and> alleles (scan_site sample_libm default_options (Nc_prev sample_carry)
      (pops (sample_site [sample_pop ''A'' ''NA'' ''25'' ''0.9'' ''NA'' ''NA'',
                          sample_pop ''T'' ''NA'' ''15'' ''0.8'' ''NA'' ''NA'']))) = [''A'']
   \<and> length (id_pop_a (examine_allele sample_libm default_options
        (Nc (scan_site sample_libm default_options (Nc_prev sample_carry)
          (pops (sample_site [sample_pop ''A'' ''NA'' ''25'' ''0.9'' ''NA'' ''NA'',
                              sample_pop ''T'' ''NA'' ''15'' ''0.8'' ''NA'' ''NA'']))))
        (pops (sample_site [sample_pop ''A'' ''NA'' ''25'' ''0.9'' ''NA'' ''NA'',
                            sample_pop ''T'' ''NA'' ''15'' ''0.8'' ''NA'' ''NA''])) ''A'')) = 1
   \<and> (\<exists>c'. process_site sample_libm default_options sample_carry
        (sample_site [sample_pop ''A'' ''NA'' ''25'' ''0.9'' ''NA'' ''NA'',
                      sample_pop ''T'' ''NA'' ''15'' ''0.8'' ''NA'' ''NA'']) = Inr ([], c'))
   \<and> ne_pops (scan_site sample_libm default_options (Nc_prev sample_carry)
      (pops (sample_site [sample_pop ''A'' ''G'' ''25'' ''0.9'' ''0.1'' ''7.5'',
                          sample_pop ''A'' ''NA'' ''22'' ''0.8'' ''NA'' ''NA'',
                          sample_pop ''C'' ''NA'' ''15'' ''0.8'' ''NA'' ''NA'']))) = 2
   \<and> alleles (scan_site sample_libm default_options (Nc_prev sample_carry)
      (pops (sample_site [sample_pop ''A'' ''G'' ''25'' ''0.9'' ''0.1'' ''7.5'',
                          sample_pop ''A'' ''NA'' ''22'' ''0.8'' ''NA'' ''NA'',
                          sample_pop ''C'' ''NA'' ''15'' ''0.8'' ''NA'' ''NA'']))) = [''A'', ''G'']
   \<and> (\<exists>out c'. process_site sample_libm default_options sample_carry
        (sample_site [sample_pop ''A'' ''G'' ''25'' ''0.9'' ''0.1'' ''7.5'',
                      sample_pop ''A'' ''NA'' ''22'' ''0.8'' ''NA'' ''NA'',
                      sample_pop ''C'' ''NA'' ''15'' ''0.8'' ''NA'' ''NA'']) = Inr (out, c')
        \<and> map out_private_allele out = [''G''] \<and> map out_id_pop out = [1]
        \<and> map out_ne_pops out = [2] \<and> map out_focal_frequency out = [1 / 10]
        \<and> map out_total_frequency out = [1 / 20])"
  using private_allele_condition [of sample_libm default_options sample_carry
      "sample_site [sample_pop ''A'' ''NA'' ''25'' ''0.9'' ''NA'' ''NA'',
                    sample_pop ''T'' ''NA'' ''15'' ''0.8'' ''NA'' ''NA'']"]
    private_allele_condition [of sample_libm default_options sample_carry
      "sample_site [sample_pop ''A'' ''G'' ''25'' ''0.9'' ''0.1'' ''7.5'',
                    sample_pop ''A'' ''NA'' ''22'' ''0.8'' ''NA'' ''NA'',
                    sample_pop ''C'' ''NA'' ''15'' ''0.8'' ''NA'' ''NA'']"]
  by (simp add: sample_defs sample_site_def sample_carry_def run_defs)




text \<open>
  Claim C3. For every printed private allele, with \<open>p\<close> the printed total frequency
  (the \<open>mean_freq_a\<close> of the allele), \<open>Nc_focal\<close> the \<open>Nc\<close> of the printed population
  (the only population carrying the allele) and \<open>Nc_other = sum_Nc - Nc_focal\<close>, where
  \<open>sum_Nc\<close> is the sum of \<open>Nc\<close> over the qualifying populations of the site, the printed
  logarithm is \<open>log10 ((1 - pow (1 - p) Nc_focal) * pow (1 - p) Nc_other)\<close>.
\<close>

theorem log_probability_formula:
  fixes L opt c s
  defines "st \<equiv> scan_site L opt (Nc_prev c) (pops s)"
  shows "\<exists>out c'. process_site L opt c s = Inr (out, c')
     \<and> (\<forall>l \<in> set out.
          let a = out_private_allele l;
              p = out_total_frequency l;
              Nc_focal = atof L (s_Nc (pops s ! (out_id_pop l - 1)));
              Nc_other = sum_list (map (\<lambda>q. atof L (s_Nc q))
                           (filter (\<lambda>q. n1 q \<noteq> ''NA'' \<and> min_Nc opt \<le> atof L (s_Nc q)) (pops s)))
                         - Nc_focal
          in mean_freq_a (examine_allele L opt (Nc st) (pops s) a) (ne_pops st) = Inr p
           \<and> id_pop_a (examine_allele L opt (Nc st) (pops s) a) = [out_id_pop l]
           \<and> 1 \<le> out_id_pop l \<and> out_id_pop l \<le> length (pops s)
           \<and> out_log_prob_pa l = log10 L ((1 - pow L (1 - p) Nc_focal) * pow L (1 - p) Nc_other))"
proof -
  define maf where "maf = site_maf L opt st (pops s) (maf_prev c)"
  define out where "out = map (print_row s st maf)
      (map (row_for L opt st (pops s)) (filter (is_private L opt st (pops s)) (alleles st)))"
  have run: "process_site L opt c s = Inr (out, \<lparr>Nc_prev = Nc st, maf_prev = maf\<rparr>)"
    unfolding out_def maf_def st_def by (rule process_site_closed)
  have sum: "sum_Nc st = sum_list (map (\<lambda>q. atof L (s_Nc q))
      (filter (\<lambda>q. n1 q \<noteq> ''NA'' \<and> min_Nc opt \<le> atof L (s_Nc q)) (pops s)))"
    by (simp add: st_def sum_Nc_scan_site qualifies_eq)
  have "mean_freq_a (examine_allele L opt (Nc st) (pops s) (out_private_allele l)) (ne_pops st)
          = Inr (out_total_frequency l)
      \<and> id_pop_a (examine_allele L opt (Nc st) (pops s) (out_private_allele l)) = [out_id_pop l]
      \<and> 1 \<le> out_id_pop l \<and> out_id_pop l \<le> length (pops s)
      \<and> out_log_prob_pa l =
          log10 L ((1 - pow L (1 - out_total_frequency l)
                          (atof L (s_Nc (pops s ! (out_id_pop l - 1)))))
                   * pow L (1 - out_total_frequency l)
                       (sum_Nc st - atof L (s_Nc (pops s ! (out_id_pop l - 1)))))"
    if "l \<in> set out" for l
  proof -
    from that obtain a where a: "a \<in> set (alleles st)" "is_private L opt st (pops s) a"
      and l: "l = print_row s st maf (row_for L opt st (pops s) a)"
      by (auto simp: out_def)
    let ?acc = "examine_allele L opt (Nc st) (pops s) a"
    from a(2) have "length (id_pop_a ?acc) = 1"
      by (simp add: is_private_def)
    from sole_carrier [OF this [unfolded st_def]]
    obtain k where k: "id_pop_a ?acc = [k]" "1 \<le> k" "k \<le> length (pops s)"
        "Nc st k = atof L (s_Nc (pops s ! (k - 1)))"
      unfolding st_def by blast
    have mean: "mean_freq_a ?acc (ne_pops st) = Inr (mean_val L opt st (pops s) a)"
      using a(1) unfolding st_def by (rule mean_freq_a_scan_site)
    from k mean show ?thesis
      by (simp add: l print_row_def row_for_def Let_def)
  qed
  with run sum show ?thesis
    by (intro exI [of _ out] exI [of _ "\<lparr>Nc_prev = Nc st, maf_prev = maf\<rparr>"])
       (simp add: Let_def)
qed

theorem log_probability_formula_witness:
  "\<exists>out c'. process_site sample_libm default_options sample_carry
        (sample_site [sample_pop ''A'' ''NA'' ''25'' ''0.9'' ''NA'' ''NA'',
                      sample_pop ''T'' ''NA'' ''22'' ''0.8'' ''NA'' ''NA'']) = Inr (out, c')
      \<and> map out_id_pop out = [1, 2]
      \<and> map out_total_frequency out = [9 / 20, 4 / 10]
      \<and> map out_log_prob_pa out =
          [log 10 ((1 - (11 / 20) powr 25) * (11 / 20) powr 22),
           log 10 ((1 - (6 / 10) powr 22) * (6 / 10) powr 25)]"
  using log_probability_formula [of sample_libm default_options sample_carry
      "sample_site [sample_pop ''A'' ''NA'' ''25'' ''0.9'' ''NA'' ''NA'',
                    sample_pop ''T'' ''NA'' ''22'' ''0.8'' ''NA'' ''NA'']"]
  by (simp add: sample_defs sample_site_def sample_carry_def run_defs)

text \<open>
  Claim C4. A population with \<open>allele1 = "NA"\<close> or \<open>Nc < min_Nc\<close> adds its coverage to
  \<open>tot_cov\<close> and changes neither \<open>ne_pops\<close>, \<open>sum_Nc\<close> nor the list of alleles. Over the
  whole site: with the population removed from the line, \<open>tot_cov\<close> is smaller by its
  coverage, and \<open>ne_pops\<close>, \<open>sum_Nc\<close>, the list of alleles and, for every allele, the
  recorded frequencies, their sum and the mean are the same; the population's id is
  never among the carriers of an allele.
\<close>

theorem nonqualifying_population_ignored:
  fixes L opt Nc0 ps p qs
  defines "st \<equiv> scan_site L opt Nc0 (ps @ p # qs)"
  defines "st' \<equiv> scan_site L opt Nc0 (ps @ qs)"
  assumes "n1 p = ''NA'' \<or> atof L (s_Nc p) < min_Nc opt"
  shows "tot_cov (scan_pop L opt pg p st0) = tot_cov st0 + pop_cov p
       \<and> ne_pops (scan_pop L opt pg p st0) = ne_pops st0
       \<and> sum_Nc (scan_pop L opt pg p st0) = sum_Nc st0
       \<and> alleles (scan_pop L opt pg p st0) = alleles st0
       \<and> tot_cov st = tot_cov st' + pop_cov p
       \<and> ne_pops st = ne_pops st'
       \<and> sum_Nc st = sum_Nc st'
       \<and> alleles st = alleles st'
       \<and> (\<forall>a. Suc (length ps) \<notin> set (id_pop_a (examine_allele L opt (Nc st) (ps @ p # qs) a))
             \<and> freq_a (examine_allele L opt (Nc st) (ps @ p # qs) a) =
                 freq_a (examine_allele L opt (Nc st') (ps @ qs) a)
             \<and> sum_freq_a (examine_allele L opt (Nc st) (ps @ p # qs) a) =
                 sum_freq_a (examine_allele L opt (Nc st') (ps @ qs) a)
             \<and> mean_freq_a (examine_allele L opt (Nc st) (ps @ p # qs) a) (ne_pops st) =
                 mean_freq_a (examine_allele L opt (Nc st') (ps @ qs) a) (ne_pops st'))"
proof -
  have nq: "\<not> qualifies L opt p"
    using assms(3) by (simp add: not_qualifies_iff)
  have step: "tot_cov (scan_pop L opt pg p st0) = tot_cov st0 + pop_cov p"
      "ne_pops (scan_pop L opt pg p st0) = ne_pops st0"
      "sum_Nc (scan_pop L opt pg p st0) = sum_Nc st0"
      "alleles (scan_pop L opt pg p st0) = alleles st0"
    using nq
    by (simp_all add: scan_pop_tot_cov scan_pop_ne_pops scan_pop_sum_Nc scan_pop_alleles
        offered_not_qualifies push_all_def)
  have site: "tot_cov st = tot_cov st' + pop_cov p" "ne_pops st = ne_pops st'"
      "sum_Nc st = sum_Nc st'" "alleles st = alleles st'"
    using nq
    by (simp_all add: st_def st'_def tot_cov_scan_site ne_pops_scan_site sum_Nc_scan_site
        alleles_scan_site offered_not_qualifies)
  have ids: "Suc (length ps) \<notin> set (id_pop_a (examine_allele L opt (Nc st) (ps @ p # qs) a))" for a
    using hits_skip_fst [OF nq, of 1 ps a qs]
    by (simp add: st_def examine_allele_scan_site)
  have freqs: "freq_a (examine_allele L opt (Nc st) (ps @ p # qs) a) =
                 freq_a (examine_allele L opt (Nc st') (ps @ qs) a)" for a
    by (simp add: st_def st'_def examine_allele_scan_site hits_skip_snd [OF nq])
  have sums: "sum_freq_a (examine_allele L opt (Nc st) (ps @ p # qs) a) =
                 sum_freq_a (examine_allele L opt (Nc st') (ps @ qs) a)" for a
    by (simp add: st_def st'_def examine_allele_scan_site hits_skip_snd [OF nq])
  have means: "mean_freq_a (examine_allele L opt (Nc st) (ps @ p # qs) a) (ne_pops st) =
                 mean_freq_a (examine_allele L opt (Nc st') (ps @ qs) a) (ne_pops st')" for a
    by (simp add: mean_freq_a_def sums site(2))
  from step site ids freqs sums means show ?thesis
    by simp
qed

theorem nonqualifying_population_ignored_witness:
  "atof sample_libm (s_Nc (sample_pop ''G'' ''C'' ''15'' ''0.8'' ''0.2'' ''7.5'')) < min_Nc default_options
   \<and> tot_cov (scan_site sample_libm default_options (\<lambda>_. 0)
        ([sample_pop ''A'' ''NA'' ''25'' ''0.9'' ''NA'' ''NA'']
         @ sample_pop ''G'' ''C'' ''15'' ''0.8'' ''0.2'' ''7.5''
         # [sample_pop ''T'' ''NA'' ''22'' ''0.8'' ''NA'' ''NA''])) = 30
   \<and> ne_pops (scan_site sample_libm default_options (\<lambda>_. 0)
        ([sample_pop ''A'' ''NA'' ''25'' ''0.9'' ''NA'' ''NA'']
         @ sample_pop ''G'' ''C'' ''15'' ''0.8'' ''0.2'' ''7.5''
         # [sample_pop ''T'' ''NA'' ''22'' ''0.8'' ''NA'' ''NA''])) = 2
   \<and> alleles (scan_site sample_libm default_options (\<lambda>_. 0)
        ([sample_pop ''A'' ''NA'' ''25'' ''0.9'' ''NA'' ''NA'']
         @ sample_pop ''G'' ''C'' ''15'' ''0.8'' ''0.2'' ''7.5''
         # [sample_pop ''T'' ''NA'' ''22'' ''0.8'' ''NA'' ''NA''])) = [''A'', ''T'']
   \<and> id_pop_a (examine_allele sample_libm default_options
        (Nc (scan_site sample_libm default_options (\<lambda>_. 0)
          ([sample_pop ''A'' ''NA'' ''25'' ''0.9'' ''NA'' ''NA'']
           @ sample_pop ''G'' ''C'' ''15'' ''0.8'' ''0.2'' ''7.5''
           # [sample_pop ''T'' ''NA'' ''22'' ''0.8'' ''NA'' ''NA''])))
        ([sample_pop ''A'' ''NA'' ''25'' ''0.9'' ''NA'' ''NA'']
         @ sample_pop ''G'' ''C'' ''15'' ''0.8'' ''0.2'' ''7.5''
         # [sample_pop ''T'' ''NA'' ''22'' ''0.8'' ''NA'' ''NA'']) ''G'') = []"
  using nonqualifying_population_ignored [where L = sample_libm and opt = default_options
      and ?Nc0.0 = "\<lambda>_. 0" and pg = 2 and ?st0.0 = empty_scan
      and p = "sample_pop ''G'' ''C'' ''15'' ''0.8'' ''0.2'' ''7.5''"
      and ps = "[sample_pop ''A'' ''NA'' ''25'' ''0.9'' ''NA'' ''NA'']"
      and qs = "[sample_pop ''T'' ''NA'' ''22'' ''0.8'' ''NA'' ''NA'']"]
  by (simp add: sample_defs run_defs)





text \<open>
  Claim C7. At a site with at least one segregating allele, the final \<open>maf_total\<close>,
  which every printed line of the site reports, is the minimum of \<open>mean_freq_a\<close> over
  the segregating alleles: it is the mean frequency of one of them and it is not greater
  than the mean frequency of any of them; with a single segregating allele it is the
  mean frequency of that allele. The value that \<open>maf_total\<close> kept from the previous
  line plays no part.
\<close>

theorem maf_total_is_minimum:
  fixes L opt c s
  defines "st \<equiv> scan_site L opt (Nc_prev c) (pops s)"
  defines "mean \<equiv> \<lambda>a. mean_freq_a (examine_allele L opt (Nc st) (pops s) a) (ne_pops st)"
  assumes "alleles st \<noteq> []"
  shows "\<exists>out c'. process_site L opt c s = Inr (out, c')
     \<and> (\<exists>a \<in> set (alleles st). mean a = Inr (maf_prev c'))
     \<and> (\<forall>a \<in> set (alleles st). \<exists>m. mean a = Inr m \<and> maf_prev c' \<le> m)
     \<and> (\<forall>l \<in> set out. out_MAF l = maf_prev c')
     \<and> (\<forall>a. alleles st = [a] \<longrightarrow> mean a = Inr (maf_prev c'))
     \<and> maf_prev c' =
          Min ((\<lambda>a. sum_freq_a (examine_allele L opt (Nc st) (pops s) a) / real (ne_pops st))
                 ` set (alleles st))"
proof -
  let ?mv = "mean_val L opt st (pops s)"
  define maf where "maf = Min (?mv ` set (alleles st))"
  define out where "out = map (print_row s st maf)
      (map (row_for L opt st (pops s)) (filter (is_private L opt st (pops s)) (alleles st)))"
  have run: "process_site L opt c s = Inr (out, \<lparr>Nc_prev = Nc st, maf_prev = maf\<rparr>)"
    using assms(3) process_site_closed [of L opt c s]
    by (simp add: out_def maf_def st_def site_maf_def)
  have mean: "mean a = Inr (?mv a)" if "a \<in> set (alleles st)" for a
    using that unfolding mean_def st_def by (rule mean_freq_a_scan_site)
  have fin: "finite (?mv ` set (alleles st))" and nonempty: "?mv ` set (alleles st) \<noteq> {}"
    using assms(3) by simp_all
  from Min_in [OF fin nonempty] obtain a0 where a0: "a0 \<in> set (alleles st)" "?mv a0 = maf"
    by (auto simp: maf_def)
  have attained: "\<exists>a \<in> set (alleles st). mean a = Inr maf"
    using a0 mean by auto
  have lower: "\<forall>a \<in> set (alleles st). \<exists>m. mean a = Inr m \<and> maf \<le> m"
  proof
    fix a assume a: "a \<in> set (alleles st)"
    then have "maf \<le> ?mv a"
      unfolding maf_def by (intro Min_le fin) simp
    with mean [OF a] show "\<exists>m. mean a = Inr m \<and> maf \<le> m" by simp
  qed
  have printed: "\<forall>l \<in> set out. out_MAF l = maf"
    by (auto simp: out_def out_MAF_print_row)
  have single: "\<forall>a. alleles st = [a] \<longrightarrow> mean a = Inr maf"
    using attained by auto
  have minimum: "maf =
      Min ((\<lambda>a. sum_freq_a (examine_allele L opt (Nc st) (pops s) a) / real (ne_pops st))
             ` set (alleles st))"
    by (simp add: maf_def mean_val_def [abs_def])
  from run attained lower printed single minimum show ?thesis
    by (intro exI [of _ out] exI [of _ "\<lparr>Nc_prev = Nc st, maf_prev = maf\<rparr>"]) simp
qed

theorem maf_total_is_minimum_witness:
  "alleles (scan_site sample_libm default_options (Nc_prev sample_carry)
      (pops (sample_site [sample_pop ''A'' ''NA'' ''25'' ''0.9'' ''NA'' ''NA'',
                          sample_pop ''T'' ''NA'' ''22'' ''0.8'' ''NA'' ''NA'']))) \<noteq> []
   \<and> (\<exists>out c'. process_site sample_libm default_options sample_carry
          (sample_site [sample_pop ''A'' ''NA'' ''25'' ''0.9'' ''NA'' ''NA'',
                        sample_pop ''T'' ''NA'' ''22'' ''0.8'' ''NA'' ''NA'']) = Inr (out, c')
        \<and> maf_prev c' = 4 / 10 \<and> map out_MAF out = [4 / 10, 4 / 10])
   \<and> alleles (scan_site sample_libm default_options (Nc_prev sample_carry)
      (pops (sample_site [sample_pop ''T'' ''NA'' ''22'' ''0.8'' ''NA'' ''NA'']))) = [''T'']
   \<and> (\<exists>out c'. process_site sample_libm default_options sample_carry
          (sample_site [sample_pop ''T'' ''NA'' ''22'' ''0.8'' ''NA'' ''NA'']) = Inr (out, c')
        \<and> maf_prev c' = 8 / 10)"
  using maf_total_is_minimum [of sample_libm default_options sample_carry
      "sample_site [sample_pop ''A'' ''NA'' ''25'' ''0.9'' ''NA'' ''NA'',
                    sample_pop ''T'' ''NA'' ''22'' ''0.8'' ''NA'' ''NA'']"]
    maf_total_is_minimum [of sample_libm default_options sample_carry
      "sample_site [sample_pop ''T'' ''NA'' ''22'' ''0.8'' ''NA'' ''NA'']"]
  by (simp add: sample_defs sample_site_def sample_carry_def run_defs)

text \<open>
  Claim C8. A site of two populations, the first with \<open>allele1 = "A"\<close>, \<open>Nc = 25\<close>,
  \<open>freq1 = 0.9\<close>, the second with \<open>allele1 = "T"\<close>, \<open>Nc = 22\<close>, \<open>freq1 = 0.8\<close>, both with
  \<open>allele2 = "NA"\<close>, and \<open>min_Nc = 20\<close>: the program prints exactly two lines, allele
  \<open>"A"\<close> of population 1 with focal frequency 0.9 and total frequency 0.45, then allele
  \<open>"T"\<close> of population 2 with focal frequency 0.8 and total frequency 0.4, both with
  MAF 0.4. The other tokens of the line and the state kept from the previous line are
  arbitrary.
\<close>

theorem scenario_B:
  assumes "atof L ''25'' = 25" and "atof L ''22'' = 22"
    and "atof L ''0.9'' = 9 / 10" and "atof L ''0.8'' = 8 / 10"
    and "min_Nc opt = 20"
    and "n1 p1 = ''A''" and "n2 p1 = ''NA''" and "s_Nc p1 = ''25''" and "s_best_p p1 = ''0.9''"
    and "n1 p2 = ''T''" and "n2 p2 = ''NA''" and "s_Nc p2 = ''22''" and "s_best_p p2 = ''0.8''"
    and "pops s = [p1, p2]"
  shows "\<exists>out c'. process_site L opt c s = Inr (out, c')
     \<and> map (\<lambda>l. (out_private_allele l, out_id_pop l, out_focal_frequency l,
                  out_total_frequency l, out_MAF l)) out =
         [(''A'', 1, 9 / 10, 45 / 100, 4 / 10), (''T'', 2, 8 / 10, 4 / 10, 4 / 10)]
     \<and> map out_ne_pops out = [2, 2] \<and> map out_num_alleles out = [2, 2]"
  using assms by (simp add: run_defs)

theorem scenario_B_witness:
  "atof sample_libm ''25'' = 25 \<and> atof sample_libm ''22'' = 22
   \<and> atof sample_libm ''0.9'' = 9 / 10 \<and> atof sample_libm ''0.8'' = 8 / 10
   \<and> min_Nc default_options = 20
   \<and> (\<exists>c'. process_site sample_libm default_options sample_carry
        (sample_site [sample_pop ''A'' ''NA'' ''25'' ''0.9'' ''NA'' ''NA'',
                      sample_pop ''T'' ''NA'' ''22'' ''0.8'' ''NA'' ''NA'']) =
        Inr ([\<lparr>out_scaffold = ''scaffold_1'', out_site = 100, out_ref_nuc = ''A'',
               out_tot_cov = 20, out_ne_pops = 2, out_num_alleles = 2,
               out_private_allele = ''A'', out_id_pop = 1, out_focal_frequency = 9 / 10,
               out_total_frequency = 45 / 100,
               out_log_prob_pa = log 10 ((1 - (11 / 20) powr 25) * (11 / 20) powr 22),
               out_MAF = 4 / 10\<rparr>,
              \<lparr>out_scaffold = ''scaffold_1'', out_site = 100, out_ref_nuc = ''A'',
               out_tot_cov = 20, out_ne_pops = 2, out_num_alleles = 2,
               out_private_allele = ''T'', out_id_pop = 2, out_focal_frequency = 8 / 10,
               out_total_frequency = 4 / 10,
               out_log_prob_pa = log 10 ((1 - (6 / 10) powr 22) * (6 / 10) powr 25),
               out_MAF = 4 / 10\<rparr>], c'))"
  using scenario_B [where L = sample_libm and opt = default_options and c = sample_carry
      and ?p1.0 = "sample_pop ''A'' ''NA'' ''25'' ''0.9'' ''NA'' ''NA''"
      and ?p2.0 = "sample_pop ''T'' ''NA'' ''22'' ''0.8'' ''NA'' ''NA''"
      and s = "sample_site [sample_pop ''A'' ''NA'' ''25'' ''0.9'' ''NA'' ''NA'',
                            sample_pop ''T'' ''NA'' ''22'' ''0.8'' ''NA'' ''NA'']"]
  by (simp add: sample_defs sample_site_def sample_carry_def run_defs)

text \<open>
  Claim C9. Whenever the division \<open>sum_freq_a / ne_pops\<close> is executed, \<open>ne_pops \<ge> 1\<close>:
  a population that changes the list of alleles also increments \<open>ne_pops\<close>; the loop
  over the alleles divides only for a member of the list, and then \<open>ne_pops \<ge> 1\<close> and
  the division has a value; so no site line ends in a division by zero (nor in any other
  error).
\<close>

theorem division_by_zero_unreachable:
  "(alleles (scan_pop L opt pg p st) \<noteq> alleles st \<longrightarrow>
      ne_pops (scan_pop L opt pg p st) = ne_pops st + 1)
   \<and> (a \<in> set (alleles (scan_site L opt Nc0 ps)) \<longrightarrow>
        1 \<le> ne_pops (scan_site L opt Nc0 ps)
        \<and> (\<exists>m. mean_freq_a (examine_allele L opt (Nc (scan_site L opt Nc0 ps)) ps a)
                 (ne_pops (scan_site L opt Nc0 ps)) = Inr m))
   \<and> (\<exists>r. process_site L opt c s = Inr r)"
proof (intro conjI impI)
  assume "alleles (scan_pop L opt pg p st) \<noteq> alleles st"
  then show "ne_pops (scan_pop L opt pg p st) = ne_pops st + 1"
    by (rule scan_pop_alleles_changed)
next
  assume "a \<in> set (alleles (scan_site L opt Nc0 ps))"
  then have "0 < ne_pops (scan_site L opt Nc0 ps)"
    by (rule alleles_imp_ne_pops)
  then show "1 \<le> ne_pops (scan_site L opt Nc0 ps)"
    and "\<exists>m. mean_freq_a (examine_allele L opt (Nc (scan_site L opt Nc0 ps)) ps a)
                 (ne_pops (scan_site L opt Nc0 ps)) = Inr m"
    by (simp_all add: mean_freq_a_def)
next
  show "\<exists>r. process_site L opt c s = Inr r"
    by (rule process_site_Inr)
qed

theorem division_by_zero_unreachable_witness:
  "alleles (scan_pop sample_libm default_options 1
       (sample_pop ''A'' ''NA'' ''25'' ''0.9'' ''NA'' ''NA'') empty_scan) \<noteq> alleles empty_scan
   \<and> ne_pops (scan_pop sample_libm default_options 1
       (sample_pop ''A'' ''NA'' ''25'' ''0.9'' ''NA'' ''NA'') empty_scan) = 1
   \<and> ''A'' \<in> set (alleles (scan_site sample_libm default_options (\<lambda>_. 0)
       [sample_pop ''A'' ''NA'' ''25'' ''0.9'' ''NA'' ''NA'']))
   \<and> mean_freq_a (examine_allele sample_libm default_options
         (Nc (scan_site sample_libm default_options (\<lambda>_. 0)
            [sample_pop ''A'' ''NA'' ''25'' ''0.9'' ''NA'' ''NA'']))
         [sample_pop ''A'' ''NA'' ''25'' ''0.9'' ''NA'' ''NA''] ''A'')
       (ne_pops (scan_site sample_libm default_options (\<lambda>_. 0)
            [sample_pop ''A'' ''NA'' ''25'' ''0.9'' ''NA'' ''NA''])) = Inr (9 / 10)"
  using division_by_zero_unreachable [of sample_libm default_options 1
      "sample_pop ''A'' ''NA'' ''25'' ''0.9'' ''NA'' ''NA''" empty_scan "''A''" "\<lambda>_. 0"
      "[sample_pop ''A'' ''NA'' ''25'' ''0.9'' ''NA'' ''NA'']"]
  by (simp add: sample_defs scan_site_def scan_pop_def push_new_def examine_allele_def
      examine_pop_def mean_freq_a_def Let_def)

text \<open>
  Claim C10. A qualifying population whose \<open>allele1\<close> and \<open>allele2\<close> are both the allele
  under examination is recorded once, with \<open>freq1\<close>: the body of the loop appends one
  population id and \<open>atof (s_best_p)\<close>, and adds \<open>atof (s_best_p)\<close> to the sum; over the
  whole site, the population's id occurs once among the carriers of the allele, paired
  with \<open>freq1\<close>. The allele is a segregating allele of the site.
\<close>

theorem degenerate_population_counted_once:
  fixes L opt Nc0 ps a i
  defines "st \<equiv> scan_site L opt Nc0 ps"
  defines "acc \<equiv> examine_allele L opt (Nc st) ps a"
  assumes "i < length ps" and "n1 (ps ! i) \<noteq> ''NA''" and "min_Nc opt \<le> atof L (s_Nc (ps ! i))"
    and "n1 (ps ! i) = a" and "n2 (ps ! i) = a"
  shows "examine_pop L opt (Nc st) a (Suc i) (ps ! i) acc0 =
           acc0\<lparr>id_pop_a := id_pop_a acc0 @ [Suc i],
                 freq_a := freq_a acc0 @ [atof L (s_best_p (ps ! i))],
                 sum_freq_a := sum_freq_a acc0 + atof L (s_best_p (ps ! i))\<rparr>
       \<and> filter (\<lambda>(k, f). k = Suc i) (zip (id_pop_a acc) (freq_a acc)) =
           [(Suc i, atof L (s_best_p (ps ! i)))]
       \<and> count_list (id_pop_a acc) (Suc i) = 1
       \<and> length (freq_a acc) = length (id_pop_a acc)
       \<and> sum_freq_a acc = sum_list (freq_a acc)
       \<and> a \<in> set (alleles st)"
proof -
  have q: "qualifies L opt (ps ! i)"
    using assms(4,5) by (simp add: qualifies_def)
  then have cf: "carrier_freq L opt a (ps ! i) = Some (atof L (s_best_p (ps ! i)))"
    using assms(6) by (simp add: carrier_freq_def)
  have Nc: "Nc st (Suc i) = atof L (s_Nc (ps ! i))"
    unfolding st_def using assms(3,4) by (rule scan_site_Nc)
  have step: "examine_pop L opt (Nc st) a (Suc i) (ps ! i) acc0 =
           acc0\<lparr>id_pop_a := id_pop_a acc0 @ [Suc i],
                 freq_a := freq_a acc0 @ [atof L (s_best_p (ps ! i))],
                 sum_freq_a := sum_freq_a acc0 + atof L (s_best_p (ps ! i))\<rparr>"
    using assms(4-7) Nc by (simp add: examine_pop_def)
  have once: "filter (\<lambda>(k, f). k = Suc i) (zip (id_pop_a acc) (freq_a acc)) =
           [(Suc i, atof L (s_best_p (ps ! i)))]"
    unfolding acc_def st_def by (simp add: recorded_entry [OF assms(3)] cf)
  have count: "count_list (id_pop_a acc) (Suc i) = 1"
    unfolding acc_def st_def by (simp add: count_recorded [OF assms(3)] cf)
  have rest: "length (freq_a acc) = length (id_pop_a acc)" "sum_freq_a acc = sum_list (freq_a acc)"
    by (simp_all add: acc_def st_def examine_allele_scan_site)
  have seg: "a \<in> set (alleles st)"
    using n1_segregating [OF assms(3) q, of Nc0] assms(6) by (simp add: st_def)
  from step once count rest seg show ?thesis by simp
qed

theorem degenerate_population_counted_once_witness:
  "0 < length [sample_pop ''A'' ''A'' ''25'' ''0.9'' ''0.1'' ''7.5'',
               sample_pop ''T'' ''NA'' ''22'' ''0.8'' ''NA'' ''NA'']
   \<and> min_Nc default_options \<le> atof sample_libm ''25''
   \<and> examine_allele sample_libm default_options
        (Nc (scan_site sample_libm default_options (\<lambda>_. 0)
           [sample_pop ''A'' ''A'' ''25'' ''0.9'' ''0.1'' ''7.5'',
            sample_pop ''T'' ''NA'' ''22'' ''0.8'' ''NA'' ''NA'']))
        [sample_pop ''A'' ''A'' ''25'' ''0.9'' ''0.1'' ''7.5'',
         sample_pop ''T'' ''NA'' ''22'' ''0.8'' ''NA'' ''NA''] ''A''
      = \<lparr>id_pop_a = [1], freq_a = [9 / 10], sum_freq_a = 9 / 10\<rparr>"
  using degenerate_population_counted_once [where i = 0 and L = sample_libm
      and opt = default_options and a = "''A''" and ?Nc0.0 = "\<lambda>_. 0"
      and ps = "[sample_pop ''A'' ''A'' ''25'' ''0.9'' ''0.1'' ''7.5'',
                 sample_pop ''T'' ''NA'' ''22'' ''0.8'' ''NA'' ''NA'']"]
  by (simp add: sample_defs run_defs)

end
